theory Spec2Isabelle
  imports Main "HOL-Library.Multiset" "HOL-Library.Char_ord" "HOL-Library.List_Lexorder"
begin

section \<open>The roster component: data model\<close>

text \<open>
  The component under study is \<^verbatim>\<open>Roster\<close> (React, TypeScript). Its state is the
  five \<^verbatim>\<open>useState\<close>/\<^verbatim>\<open>useLocalStorage\<close> cells; its handlers are closures over
  the values of the current render. Each handler is embedded as a function from the
  state before the event to the state after it.

  \<^verbatim>\<open>interface Player { id: number; name: string; position: string; year: string; rating: string }\<close>
  The draft \<^verbatim>\<open>newPlayer\<close> has type \<^verbatim>\<open>Omit<Player, 'id'>\<close>, so \<open>player\<close> extends
  the record of the four string fields by the id. \<^verbatim>\<open>startEditing\<close> stores a whole
  \<^verbatim>\<open>Player\<close> object in the draft; the id it carries is overwritten by every
  object literal that spreads the draft (\<^verbatim>\<open>{ ...newPlayer, id: ..., name: ... }\<close>) and
  is never read, so the draft keeps the four fields only.

  Strings are lists of 8-bit characters: the model covers the Latin-1 part of
  JavaScript's UTF-16 strings. Ids are JavaScript numbers holding integers
  (\<^verbatim>\<open>Date.now()\<close>), modelled as \<open>int\<close>.
\<close>

record new_player =
  name :: string
  position :: string
  year :: string
  rating :: string

record player = new_player +
  id_player :: int

definition positions :: "string list" where
  "positions = [''QB'', ''RB'', ''WR'', ''TE'', ''OL'', ''DL'', ''LB'', ''CB'', ''S'', ''K'', ''P'']"

definition years :: "string list" where
  "years = [''FR'', ''FR (RS)'', ''SO'', ''SO (RS)'', ''JR'', ''JR (RS)'', ''SR'', ''SR (RS)'']"

datatype SortField = Name | Position | Year | Rating

datatype direction = asc | desc

record sort_config =
  field :: SortField
  direction :: direction

text \<open>
  A JavaScript number that is either an integer or \<^verbatim>\<open>NaN\<close> (\<open>None\<close>). The integers
  are unbounded here; the source's doubles agree with them below \<open>2 ^ 53\<close>, and the
  sort reads only the sign of a comparison.
\<close>

type_synonym number = "int option"

definition js_sub :: "number \<Rightarrow> number \<Rightarrow> number" where
  "js_sub x y = (case x of None \<Rightarrow> None | Some a \<Rightarrow> (case y of None \<Rightarrow> None | Some b \<Rightarrow> Some (a - b)))"

definition js_neg :: "number \<Rightarrow> number" where
  "js_neg x = (case x of None \<Rightarrow> None | Some a \<Rightarrow> Some (- a))"

text \<open>
  \<^verbatim>\<open>const yearOrder = { 'FR': 0, 'FR (RS)': 1, ..., 'SR (RS)': 7 }\<close>. A key that is
  not one of the eight labels reads \<^verbatim>\<open>undefined\<close> (or an inherited non-number), which
  the subtraction turns into \<^verbatim>\<open>NaN\<close>: \<open>None\<close>.
\<close>

definition yearOrder :: "string \<Rightarrow> number" where
  "yearOrder = map_of
     [(''FR'', 0), (''FR (RS)'', 1), (''SO'', 2), (''SO (RS)'', 3),
      (''JR'', 4), (''JR (RS)'', 5), (''SR'', 6), (''SR (RS)'', 7)]"

subsection \<open>The built-ins \<^verbatim>\<open>parseInt\<close> and \<^verbatim>\<open>Array.prototype.sort\<close>\<close>

text \<open>
  \<^verbatim>\<open>parseInt(s)\<close> with no radix, after ECMAScript: skip leading white space, read an
  optional sign, switch to radix 16 after a \<^verbatim>\<open>0x\<close>/\<^verbatim>\<open>0X\<close> prefix, take the longest
  prefix of digits of the radix, and answer \<^verbatim>\<open>NaN\<close> when that prefix is empty.
\<close>

definition is_white_space :: "char \<Rightarrow> bool" where
  "is_white_space c = (of_char c \<in> {9, 10, 11, 12, 13, 32, 160 :: nat})"

definition digit_value :: "char \<Rightarrow> nat" where
  "digit_value c =
     (let n = (of_char c :: nat) in
      if 48 \<le> n \<and> n \<le> 57 then n - 48
      else if 97 \<le> n \<and> n \<le> 122 then n - 87
      else if 65 \<le> n \<and> n \<le> 90 then n - 55
      else 36)"

definition is_radix_digit :: "nat \<Rightarrow> char \<Rightarrow> bool" where
  "is_radix_digit R c = (digit_value c < R)"

definition digits_value :: "nat \<Rightarrow> string \<Rightarrow> nat" where
  "digits_value R Z = foldl (\<lambda>acc c. acc * R + digit_value c) 0 Z"

definition parseInt :: "string \<Rightarrow> number" where
  "parseInt inputString =
     (let S = dropWhile is_white_space inputString;
          sign = (if S \<noteq> [] \<and> hd S = CHR ''-'' then - 1 else 1 :: int);
          S1 = (if S \<noteq> [] \<and> (hd S = CHR ''+'' \<or> hd S = CHR ''-'') then tl S else S);
          hex = (2 \<le> length S1 \<and> (take 2 S1 = ''0x'' \<or> take 2 S1 = ''0X''));
          R = (if hex then 16 else 10);
          S2 = (if hex then drop 2 S1 else S1);
          Z = takeWhile (is_radix_digit R) S2
      in if Z = [] then None else Some (sign * int (digits_value R Z)))"

text \<open>
  \<^verbatim>\<open>Array.prototype.sort(comparefn)\<close>. ECMAScript reads the comparator through
  \<^verbatim>\<open>SortCompare\<close>, which turns a \<^verbatim>\<open>NaN\<close> answer into \<open>+0\<close>, and requires a stable
  sort; the algorithm itself is left to the engine. The model is the stable insertion
  sort: an element stays in front of a later one unless the comparator answers a
  positive number for the pair.
\<close>

definition SortCompare :: "('a \<Rightarrow> 'a \<Rightarrow> number) \<Rightarrow> 'a \<Rightarrow> 'a \<Rightarrow> int" where
  "SortCompare comparefn x y = (case comparefn x y of None \<Rightarrow> 0 | Some v \<Rightarrow> v)"

fun insert_sorted :: "('a \<Rightarrow> 'a \<Rightarrow> number) \<Rightarrow> 'a \<Rightarrow> 'a list \<Rightarrow> 'a list" where
  "insert_sorted comparefn x [] = [x]"
| "insert_sorted comparefn x (y # ys) =
     (if SortCompare comparefn x y \<le> 0 then x # y # ys
      else y # insert_sorted comparefn x ys)"

fun array_sort :: "('a \<Rightarrow> 'a \<Rightarrow> number) \<Rightarrow> 'a list \<Rightarrow> 'a list" where
  "array_sort comparefn [] = []"
| "array_sort comparefn (x # xs) = insert_sorted comparefn x (array_sort comparefn xs)"

subsection \<open>The helpers imported from \<^verbatim>\<open>@/utils\<close>\<close>

text \<open>
  \<^verbatim>\<open>capitalizeName\<close>, \<^verbatim>\<open>validateName\<close>, \<^verbatim>\<open>validateRating\<close> and
  \<^verbatim>\<open>validatePosition\<close> are imported by the component and defined elsewhere. The
  handlers take them as a parameter, so that what is proved of a handler holds for
  every implementation of the helpers.
\<close>

record utils =
  capitalizeName :: "string \<Rightarrow> string"
  validateName :: "string \<Rightarrow> bool"
  validateRating :: "string \<Rightarrow> bool"
  validatePosition :: "string \<Rightarrow> bool"

text \<open>
  Modelled from the spec: the bodies of the four helpers of \<^verbatim>\<open>@/utils\<close> and
  \<^verbatim>\<open>@/utils/validationUtils\<close>, which the component imports. The specification says:
  the name fails when the trimmed value is empty or exceeds 100 characters; the position
  fails unless it exactly matches one member of the fixed position-code set; the rating
  fails unless it parses as an integer that lies in the closed range from 0 to 99; the
  display form of a name is capitalized per word. These instances serve where a
  concrete helper has to be evaluated.
\<close>

definition trim :: "string \<Rightarrow> string" where
  "trim s = rev (dropWhile is_white_space (rev (dropWhile is_white_space s)))"

definition spec_validateName :: "string \<Rightarrow> bool" where
  "spec_validateName n = (trim n \<noteq> [] \<and> length (trim n) \<le> 100)"

definition spec_validatePosition :: "string \<Rightarrow> bool" where
  "spec_validatePosition p = (p \<in> set positions)"

definition spec_validateRating :: "string \<Rightarrow> bool" where
  "spec_validateRating r = (case parseInt r of None \<Rightarrow> False | Some v \<Rightarrow> 0 \<le> v \<and> v \<le> 99)"

definition to_upper :: "char \<Rightarrow> char" where
  "to_upper c =
     (let n = (of_char c :: nat) in if 97 \<le> n \<and> n \<le> 122 then char_of (n - 32) else c)"

fun capitalize_words :: "bool \<Rightarrow> string \<Rightarrow> string" where
  "capitalize_words at_start [] = []"
| "capitalize_words at_start (c # cs) =
     (if c = CHR '' '' then c # capitalize_words True cs
      else (if at_start then to_upper c else c) # capitalize_words False cs)"

definition spec_capitalizeName :: "string \<Rightarrow> string" where
  "spec_capitalizeName n = capitalize_words True n"

definition spec_utils :: utils where
  "spec_utils =
     \<lparr>capitalizeName = spec_capitalizeName, validateName = spec_validateName,
      validateRating = spec_validateRating, validatePosition = spec_validatePosition\<rparr>"

section \<open>The component state and its handlers\<close>

datatype toast = toast_success string | toast_error string

text \<open>
  \<open>players\<close>, \<open>newPlayer\<close>, \<open>editingId\<close>, \<open>sortConfig\<close> and \<open>errors\<close> are the
  five state cells. \<open>errors\<close> is the object \<^verbatim>\<open>{ [key: string]: string }\<close>, kept as
  the list of its entries in insertion order (no key is assigned twice).
  \<open>toasts\<close> logs the notifications in the order they are raised.

  \<open>players_ref\<close> stands for the identity of the array held in \<open>players\<close>: the
  dependency list \<^verbatim>\<open>[players]\<close> of the effect compares references, not contents.
\<close>

record roster =
  players :: "player list"
  players_ref :: nat
  newPlayer :: new_player
  editingId :: "int option"
  sortConfig :: sort_config
  errors :: "(string \<times> string) list"
  toasts :: "toast list"

definition empty_new_player :: new_player where
  "empty_new_player = \<lparr>name = [], position = [], year = [], rating = []\<rparr>"

definition default_sortConfig :: sort_config where
  "default_sortConfig = \<lparr>field = Rating, direction = desc\<rparr>"

text \<open>
  The first render: \<^verbatim>\<open>useLocalStorage('players', [])\<close> yields the stored collection
  (\<open>[]\<close> when there is none), the other cells hold their initial values.
\<close>

definition initial :: "player list \<Rightarrow> roster" where
  "initial stored =
     \<lparr>players = stored, players_ref = 0, newPlayer = empty_new_player, editingId = None,
      sortConfig = default_sortConfig, errors = [], toasts = []\<rparr>"

text \<open>
  Modelled from the spec: the setter returned by the hook \<^verbatim>\<open>useLocalStorage\<close>, which
  is not part of the component. The specification's \<^verbatim>\<open>write(newCollection)\<close> replaces
  the in-memory collection wholesale, and the in-memory view stays the source of truth
  whatever happens to the backing store. Every call site passes a freshly built array
  (a spread, \<^verbatim>\<open>map\<close> or \<^verbatim>\<open>filter\<close>), so each call gives \<open>players\<close> a new identity.
\<close>

definition setPlayers :: "player list \<Rightarrow> roster \<Rightarrow> roster" where
  "setPlayers ps s = s\<lparr>players := ps, players_ref := Suc (players_ref s)\<rparr>"

text \<open>
  \<^verbatim>\<open>sortedPlayers = [...players].sort((a, b) => ...)\<close>: the comparator, with the
  configuration it closes over, and the sorted copy.
\<close>

definition get_field :: "SortField \<Rightarrow> player \<Rightarrow> string" where
  "get_field f a = (case f of Name \<Rightarrow> name a | Position \<Rightarrow> position a
                    | Year \<Rightarrow> year a | Rating \<Rightarrow> rating a)"

definition comparefn :: "sort_config \<Rightarrow> player \<Rightarrow> player \<Rightarrow> number" where
  "comparefn cfg a b =
     (if field cfg = Year then
        (let yearDiff = js_sub (yearOrder (year a)) (yearOrder (year b))
         in if direction cfg = asc then yearDiff else js_neg yearDiff)
      else if field cfg = Rating then
        (if direction cfg = asc
         then js_sub (parseInt (rating a)) (parseInt (rating b))
         else js_sub (parseInt (rating b)) (parseInt (rating a)))
      else
        (if get_field (field cfg) a < get_field (field cfg) b
           then (if direction cfg = asc then Some (- 1) else Some 1)
         else if get_field (field cfg) a > get_field (field cfg) b
           then (if direction cfg = asc then Some 1 else Some (- 1))
         else Some 0))"

definition sortedPlayers :: "roster \<Rightarrow> player list" where
  "sortedPlayers s = array_sort (comparefn (sortConfig s)) (players s)"

definition requestSort :: "SortField \<Rightarrow> roster \<Rightarrow> roster" where
  "requestSort f s =
     s\<lparr>sortConfig :=
         \<lparr>field = f,
          direction = (if field (sortConfig s) = f \<and> direction (sortConfig s) = asc
                       then desc else asc)\<rparr>\<rparr>"

text \<open>
  \<^verbatim>\<open>validatePlayer\<close> collects one message per failing field, stores the object in
  \<open>errors\<close> and answers whether it has no key.
\<close>

definition validatePlayer :: "utils \<Rightarrow> new_player \<Rightarrow> roster \<Rightarrow> bool \<times> roster" where
  "validatePlayer u p s =
     (let newErrors =
            (if \<not> validateName u (name p)
             then [(''name'', ''Invalid name. Please enter a non-empty name up to 100 characters.'')]
             else [])
          @ (if \<not> validatePosition u (position p)
             then [(''position'', ''Invalid position. Please select a valid position.'')]
             else [])
          @ (if \<not> validateRating u (rating p)
             then [(''rating'', ''Invalid rating. Please enter a number between 0 and 99.'')]
             else [])
      in (newErrors = [], s\<lparr>errors := newErrors\<rparr>))"

definition with_id :: "new_player \<Rightarrow> int \<Rightarrow> string \<Rightarrow> player" where
  \<comment> \<open>the object literal \<^verbatim>\<open>{ ...newPlayer, id: i, name: n }\<close>\<close>
  "with_id d i n =
     \<lparr>name = n, position = position d, year = year d, rating = rating d, id_player = i\<rparr>"

definition fields_of :: "player \<Rightarrow> new_player" where
  "fields_of p = \<lparr>name = name p, position = position p, year = year p, rating = rating p\<rparr>"

text \<open>
  \<^verbatim>\<open>addPlayer\<close>; \<open>now\<close> is the value \<^verbatim>\<open>Date.now()\<close> returns. The \<^verbatim>\<open>catch\<close>
  branch of the source is entered only when a setter or the toast throws, which the
  total setters of this model never do.
\<close>

definition addPlayer :: "utils \<Rightarrow> int \<Rightarrow> roster \<Rightarrow> roster" where
  "addPlayer u now s =
     (case validatePlayer u (newPlayer s) s of
        (ok, s1) \<Rightarrow>
          if ok then
            (let s2 = setPlayers
                        (players s @ [with_id (newPlayer s) now
                                        (capitalizeName u (name (newPlayer s)))]) s1;
                 s3 = s2\<lparr>newPlayer := empty_new_player\<rparr>
             in s3\<lparr>toasts := toasts s3 @ [toast_success ''Player added successfully!'']\<rparr>)
          else
            s1\<lparr>toasts := toasts s1
                  @ [toast_error ''Please correct the errors before adding the player.'']\<rparr>)"

definition startEditing :: "player \<Rightarrow> roster \<Rightarrow> roster" where
  "startEditing p s = s\<lparr>editingId := Some (id_player p), newPlayer := fields_of p\<rparr>"

definition saveEdit :: "utils \<Rightarrow> roster \<Rightarrow> roster" where
  "saveEdit u s =
     (let s1 = setPlayers
                 (map (\<lambda>p. if Some (id_player p) = editingId s
                            then with_id (newPlayer s) (id_player p)
                                   (capitalizeName u (name (newPlayer s)))
                            else p)
                      (players s)) s;
          s2 = s1\<lparr>editingId := None\<rparr>
      in s2\<lparr>newPlayer := empty_new_player\<rparr>)"

definition cancelEdit :: "roster \<Rightarrow> roster" where
  "cancelEdit s = s\<lparr>editingId := None, newPlayer := empty_new_player\<rparr>"

definition removePlayer :: "int \<Rightarrow> roster \<Rightarrow> roster" where
  "removePlayer i s = setPlayers (filter (\<lambda>p. id_player p \<noteq> i) (players s)) s"

subsection \<open>Events, the effect, and runs\<close>

text \<open>
  The four \<^verbatim>\<open>onChange\<close>/\<^verbatim>\<open>onValueChange\<close> handlers of the form each replace one
  field of the draft.
\<close>

datatype draft_edit = SetName string | SetPosition string | SetYear string | SetRating string

fun apply_edit :: "draft_edit \<Rightarrow> roster \<Rightarrow> roster" where
  "apply_edit (SetName v) s = s\<lparr>newPlayer := (newPlayer s)\<lparr>name := v\<rparr>\<rparr>"
| "apply_edit (SetPosition v) s = s\<lparr>newPlayer := (newPlayer s)\<lparr>position := v\<rparr>\<rparr>"
| "apply_edit (SetYear v) s = s\<lparr>newPlayer := (newPlayer s)\<lparr>year := v\<rparr>\<rparr>"
| "apply_edit (SetRating v) s = s\<lparr>newPlayer := (newPlayer s)\<lparr>rating := v\<rparr>\<rparr>"

datatype event =
    Edit draft_edit
  | RequestSort SortField
  | AddPlayer int
  | StartEditing player
  | SaveEdit
  | CancelEdit
  | RemovePlayer int

fun handler :: "utils \<Rightarrow> event \<Rightarrow> roster \<Rightarrow> roster" where
  "handler u (Edit e) s = apply_edit e s"
| "handler u (RequestSort f) s = requestSort f s"
| "handler u (AddPlayer now) s = addPlayer u now s"
| "handler u (StartEditing p) s = startEditing p s"
| "handler u SaveEdit s = saveEdit u s"
| "handler u CancelEdit s = cancelEdit s"
| "handler u (RemovePlayer i) s = removePlayer i s"

text \<open>
  \<^verbatim>\<open>useEffect(() => setSortConfig({ field: 'rating', direction: 'desc' }), [players])\<close>
  runs after a render in which \<open>players\<close> is another array than in the render before:
  \<open>rendered\<close> is the state the last render showed, \<open>s\<close> the state the handler left.
\<close>

definition players_effect :: "roster \<Rightarrow> roster \<Rightarrow> roster" where
  "players_effect rendered s =
     (if players_ref s \<noteq> players_ref rendered
      then s\<lparr>sortConfig := default_sortConfig\<rparr> else s)"

definition dispatch :: "utils \<Rightarrow> event \<Rightarrow> roster \<Rightarrow> roster" where
  "dispatch u e s = players_effect s (handler u e s)"

fun run :: "utils \<Rightarrow> event list \<Rightarrow> roster \<Rightarrow> roster" where
  "run u [] s = s"
| "run u (e # es) s = run u es (dispatch u e s)"

text \<open>
  What the rendered page offers: free text in the name and rating inputs, the listed
  items in the position and year selects, \<^verbatim>\<open>{editingId ? (Save, Cancel) : (Add Player)}\<close>,
  and one Edit and one Remove button per displayed row. \<^verbatim>\<open>updatePlayer\<close> is
  declared in the component and has no call site, so no event reaches it.
\<close>

definition truthy :: "int option \<Rightarrow> bool" where
  "truthy i = (case i of None \<Rightarrow> False | Some n \<Rightarrow> n \<noteq> 0)"

fun offered :: "event \<Rightarrow> roster \<Rightarrow> bool" where
  "offered (Edit (SetName v)) s = True"
| "offered (Edit (SetPosition v)) s = (v \<in> set positions)"
| "offered (Edit (SetYear v)) s = (v \<in> set years)"
| "offered (Edit (SetRating v)) s = True"
| "offered (RequestSort f) s = True"
| "offered (AddPlayer now) s = (\<not> truthy (editingId s))"
| "offered (StartEditing p) s = (p \<in> set (players s))"
| "offered SaveEdit s = truthy (editingId s)"
| "offered CancelEdit s = truthy (editingId s)"
| "offered (RemovePlayer i) s = (i \<in> set (map id_player (players s)))"

fun feasible :: "utils \<Rightarrow> event list \<Rightarrow> roster \<Rightarrow> bool" where
  "feasible u [] s = True"
| "feasible u (e # es) s = (offered e s \<and> feasible u es (dispatch u e s))"

text \<open>
  A record, with or without its id, passes the three field validators.
\<close>

definition valid_record :: "utils \<Rightarrow> 'a new_player_scheme \<Rightarrow> bool" where
  "valid_record u p =
     (validateName u (name p) \<and> validatePosition u (position p) \<and> validateRating u (rating p))"

definition store_valid :: "utils \<Rightarrow> roster \<Rightarrow> bool" where
  "store_valid u s = list_all (valid_record u) (players s)"

text \<open>
  The clock is fresh along a run when every \<^verbatim>\<open>addPlayer\<close> that passes validation
  reads a \<^verbatim>\<open>Date.now()\<close> that is the id of no record in the collection.
\<close>

fun fresh_clock :: "utils \<Rightarrow> event list \<Rightarrow> roster \<Rightarrow> bool" where
  "fresh_clock u [] s = True"
| "fresh_clock u (e # es) s =
     ((case e of
         AddPlayer now \<Rightarrow> valid_record u (newPlayer s) \<longrightarrow> now \<notin> set (map id_player (players s))
       | _ \<Rightarrow> True)
      \<and> fresh_clock u es (dispatch u e s))"

text \<open>
  The integer a comparison key stands for, with 0 for \<^verbatim>\<open>NaN\<close>; used to state
  that a sorted view is in numeric order.
\<close>

definition number_key :: "number \<Rightarrow> int" where
  "number_key n = (case n of None \<Rightarrow> 0 | Some v \<Rightarrow> v)"

subsection \<open>Example data\<close>

definition t0 :: int where
  "t0 = 1700000000000"

definition al :: player where
  "al = \<lparr>name = ''Al Ray'', position = ''QB'', year = ''SO'', rating = ''88'', id_player = t0\<rparr>"

definition bo :: player where
  "bo = \<lparr>name = ''Bo Dee'', position = ''K'', year = ''FR'', rating = ''71'', id_player = t0 + 1\<rparr>"

definition type_al :: "event list" where
  "type_al = [Edit (SetName ''al ray''), Edit (SetPosition ''QB''), Edit (SetYear ''SO''),
              Edit (SetRating ''88'')]"

definition type_bo :: "event list" where
  "type_bo = [Edit (SetName ''bo dee''), Edit (SetPosition ''K''), Edit (SetYear ''FR''),
              Edit (SetRating ''71'')]"

definition with_rating :: "string \<Rightarrow> int \<Rightarrow> player" where
  "with_rating r i = \<lparr>name = ''Al Ray'', position = ''QB'', year = ''SO'', rating = r, id_player = i\<rparr>"

definition with_year :: "string \<Rightarrow> int \<Rightarrow> player" where
  "with_year y i = \<lparr>name = ''Al Ray'', position = ''QB'', year = y, rating = ''88'', id_player = i\<rparr>"

definition shuffled :: "player list" where
  "shuffled = [with_year ''SR'' 1, with_year ''FR (RS)'' 2, with_year ''JR'' 3, with_year ''SO'' 4,
               with_year ''SR (RS)'' 5, with_year ''FR'' 6, with_year ''JR (RS)'' 7,
               with_year ''SO (RS)'' 8]"


section \<open>Adding a record\<close>

lemma validatePlayer_fst:
  "fst (validatePlayer u d s) = valid_record u d"
  by (simp add: validatePlayer_def valid_record_def Let_def)

lemma validatePlayer_snd_frame:
  "snd (validatePlayer u d s) = s\<lparr>errors := errors (snd (validatePlayer u d s))\<rparr>"
  by (simp add: validatePlayer_def Let_def)



lemma addPlayer_valid:
  assumes "valid_record u (newPlayer s)"
  shows "addPlayer u now s =
    (snd (validatePlayer u (newPlayer s) s))
      \<lparr>players := players s @ [with_id (newPlayer s) now (capitalizeName u (name (newPlayer s)))],
       players_ref := Suc (players_ref (snd (validatePlayer u (newPlayer s) s))),
       newPlayer := empty_new_player,
       toasts := toasts (snd (validatePlayer u (newPlayer s) s))
                   @ [toast_success ''Player added successfully!'']\<rparr>"
  using assms validatePlayer_fst [of u "newPlayer s" s]
  by (cases "validatePlayer u (newPlayer s) s") (simp add: addPlayer_def setPlayers_def)

lemma addPlayer_invalid:
  assumes "\<not> valid_record u (newPlayer s)"
  shows "addPlayer u now s =
    (snd (validatePlayer u (newPlayer s) s))
      \<lparr>toasts := toasts (snd (validatePlayer u (newPlayer s) s))
                   @ [toast_error ''Please correct the errors before adding the player.'']\<rparr>"
  using assms validatePlayer_fst [of u "newPlayer s" s]
  by (cases "validatePlayer u (newPlayer s) s") (simp add: addPlayer_def)


lemma players_addPlayer_valid:
  assumes "valid_record u (newPlayer s)"
  shows "players (addPlayer u now s)
         = players s @ [with_id (newPlayer s) now (capitalizeName u (name (newPlayer s)))]"
  using assms by (simp add: addPlayer_valid)

lemma players_addPlayer_invalid:
  assumes "\<not> valid_record u (newPlayer s)"
  shows "players (addPlayer u now s) = players s"
    and "players_ref (addPlayer u now s) = players_ref s"
proof -
  have "players (snd (validatePlayer u (newPlayer s) s)) = players s"
    by (subst validatePlayer_snd_frame) simp
  then show "players (addPlayer u now s) = players s"
    using assms by (simp add: addPlayer_invalid)
  have "players_ref (snd (validatePlayer u (newPlayer s) s)) = players_ref s"
    by (subst validatePlayer_snd_frame) simp
  then show "players_ref (addPlayer u now s) = players_ref s"
    using assms by (simp add: addPlayer_invalid)
qed




section \<open>The edit session\<close>

lemma fold_apply_edit_frame:
  "fold apply_edit edits t = t\<lparr>newPlayer := newPlayer (fold apply_edit edits t)\<rparr>"
proof (induction edits arbitrary: t)
  case Nil
  show ?case by simp
next
  case (Cons e edits)
  have step: "apply_edit e t = t\<lparr>newPlayer := newPlayer (apply_edit e t)\<rparr>"
    by (cases e) simp_all
  have "fold apply_edit (e # edits) t = fold apply_edit edits (apply_edit e t)"
    by simp
  also have "\<dots> = (apply_edit e t)\<lparr>newPlayer := newPlayer (fold apply_edit edits (apply_edit e t))\<rparr>"
    by (rule Cons.IH)
  also have "\<dots> = t\<lparr>newPlayer := newPlayer (fold apply_edit edits (apply_edit e t))\<rparr>"
    by (subst step) simp
  finally show ?case by simp
qed

text \<open>
  Claim C8. For every record \<open>r\<close> and every sequence of edits of the draft fields,
  \<^verbatim>\<open>startEditing(r)\<close>, the edits and then \<^verbatim>\<open>cancelEdit()\<close> leave the
  collection (and its identity) exactly as it was before \<^verbatim>\<open>startEditing\<close>;
  \<^verbatim>\<open>cancelEdit\<close> clears \<open>editingId\<close> and the draft whatever the draft holds, and
  runs no validation: the error object and the notices are untouched. The whole state
  is the one before the session with \<open>editingId\<close> and the draft cleared.
\<close>

theorem startEditing_cancelEdit:
  "players (cancelEdit (fold apply_edit edits (startEditing r s))) = players s
   \<and> players_ref (cancelEdit (fold apply_edit edits (startEditing r s))) = players_ref s
   \<and> errors (cancelEdit (fold apply_edit edits (startEditing r s))) = errors s
   \<and> toasts (cancelEdit (fold apply_edit edits (startEditing r s))) = toasts s
   \<and> editingId (cancelEdit (fold apply_edit edits (startEditing r s))) = None
   \<and> newPlayer (cancelEdit (fold apply_edit edits (startEditing r s))) = empty_new_player
   \<and> cancelEdit (fold apply_edit edits (startEditing r s))
       = s\<lparr>editingId := None, newPlayer := empty_new_player\<rparr>"
proof -
  have "cancelEdit (fold apply_edit edits (startEditing r s))
        = s\<lparr>editingId := None, newPlayer := empty_new_player\<rparr>"
    by (subst fold_apply_edit_frame) (simp add: cancelEdit_def startEditing_def)
  then show ?thesis by simp
qed

theorem startEditing_cancelEdit_witness:
  "players (cancelEdit (fold apply_edit [SetName [], SetRating ''abc'']
              (startEditing al (initial [al, bo])))) = [al, bo]
   \<and> cancelEdit (fold apply_edit [SetName [], SetRating ''abc'']
              (startEditing al (initial [al, bo]))) = initial [al, bo]"
  using startEditing_cancelEdit [of "[SetName [], SetRating ''abc'']" al "initial [al, bo]"]
  by (simp add: initial_def)

text \<open>
  Claim C10. When \<^verbatim>\<open>saveEdit()\<close> runs while \<open>editingId\<close> is the id of no
  record of the collection (for instance after the record under edit was removed),
  every record maps to itself, so the collection holds the same records as before, and
  \<open>editingId\<close> and the draft are cleared all the same.
\<close>

theorem saveEdit_unmatched_id:
  assumes "\<forall>p \<in> set (players s). Some (id_player p) \<noteq> editingId s"
  shows "players (saveEdit u s) = players s
         \<and> editingId (saveEdit u s) = None
         \<and> newPlayer (saveEdit u s) = empty_new_player"
proof -
  have "map (\<lambda>p. if Some (id_player p) = editingId s
                  then with_id (newPlayer s) (id_player p) (capitalizeName u (name (newPlayer s)))
                  else p) (players s) = players s"
    using assms by (intro map_idI) simp
  then show ?thesis
    by (simp add: saveEdit_def setPlayers_def Let_def)
qed

theorem saveEdit_unmatched_id_witness:
  "editingId (removePlayer t0 (startEditing al (initial [al, bo]))) = Some t0
   \<and> list_all (\<lambda>p. Some (id_player p)
                       \<noteq> editingId (removePlayer t0 (startEditing al (initial [al, bo]))))
        (players (removePlayer t0 (startEditing al (initial [al, bo]))))
   \<and> players (saveEdit spec_utils (removePlayer t0 (startEditing al (initial [al, bo])))) = [bo]
   \<and> editingId (saveEdit spec_utils (removePlayer t0 (startEditing al (initial [al, bo])))) = None"
proof -
  have a: "players (removePlayer t0 (startEditing al (initial [al, bo]))) = [bo]"
    by code_simp
  have b: "editingId (removePlayer t0 (startEditing al (initial [al, bo]))) = Some t0"
    by code_simp
  have c: "id_player bo \<noteq> t0"
    by code_simp
  have d: "\<forall>p \<in> set (players (removePlayer t0 (startEditing al (initial [al, bo])))).
         Some (id_player p) \<noteq> editingId (removePlayer t0 (startEditing al (initial [al, bo])))"
    using a b c by simp
  show ?thesis
    using saveEdit_unmatched_id [OF d, of spec_utils] a b d by (simp add: list_all_iff)
qed

section \<open>Removing a record\<close>

text \<open>
  Claim C9. For every id and in every state, \<^verbatim>\<open>removePlayer(id)\<close> replaces the
  collection by exactly the records whose id differs from it, in their order. When no
  record has the id the collection holds the same records as before, every record
  with another id is kept as it is, and nothing else of the controller state changes:
  the edit marker, the draft, the error object and the notices stay.
\<close>

theorem removePlayer_filters:
  "players (removePlayer i s) = filter (\<lambda>p. id_player p \<noteq> i) (players s)
   \<and> (i \<notin> set (map id_player (players s)) \<longrightarrow> players (removePlayer i s) = players s)
   \<and> (\<forall>p \<in> set (players s). id_player p \<noteq> i \<longrightarrow> p \<in> set (players (removePlayer i s)))
   \<and> editingId (removePlayer i s) = editingId s
   \<and> newPlayer (removePlayer i s) = newPlayer s
   \<and> errors (removePlayer i s) = errors s
   \<and> toasts (removePlayer i s) = toasts s"
proof -
  have ps: "players (removePlayer i s) = filter (\<lambda>p. id_player p \<noteq> i) (players s)"
    by (simp add: removePlayer_def setPlayers_def)
  have same: "filter (\<lambda>p. id_player p \<noteq> i) (players s) = players s"
    if "i \<notin> set (map id_player (players s))"
    using that by (intro filter_True) auto
  show ?thesis
    using ps same by (simp add: removePlayer_def setPlayers_def)
qed

theorem removePlayer_filters_witness:
  "7 \<notin> set (map id_player (players (initial [al, bo])))
   \<and> players (removePlayer 7 (initial [al, bo])) = [al, bo]
   \<and> id_player bo \<noteq> t0
   \<and> players (removePlayer t0 (initial [al, bo])) = [bo]"
proof -
  have a: "7 \<notin> set (map id_player (players (initial [al, bo])))"
    by code_simp
  have b: "id_player bo \<noteq> t0" "id_player al = t0"
    by code_simp+
  have c: "players (initial [al, bo]) = [al, bo]"
    by (simp add: initial_def)
  show ?thesis
    using removePlayer_filters [of 7 "initial [al, bo]"]
      removePlayer_filters [of t0 "initial [al, bo]"] a b c
    by simp
qed

section \<open>The sort configuration after a change of the collection\<close>

lemma players_apply_edit: "players (apply_edit e s) = players s"
  by (cases e) simp_all

lemma players_changed_ref_changed:
  assumes "players (handler u e s) \<noteq> players s"
  shows "players_ref (handler u e s) \<noteq> players_ref s"
proof (cases e)
  case (Edit d)
  then show ?thesis using assms by (simp add: players_apply_edit)
next
  case (RequestSort f)
  then show ?thesis using assms by (simp add: requestSort_def)
next
  case (AddPlayer now)
  show ?thesis
  proof (cases "valid_record u (newPlayer s)")
    case True
    have "players_ref (snd (validatePlayer u (newPlayer s) s)) = players_ref s"
      by (subst validatePlayer_snd_frame) simp
    then show ?thesis using True AddPlayer by (simp add: addPlayer_valid)
  next
    case False
    then show ?thesis using assms AddPlayer by (simp add: players_addPlayer_invalid)
  qed
next
  case (StartEditing p)
  then show ?thesis using assms by (simp add: startEditing_def)
next
  case SaveEdit
  then show ?thesis by (simp add: saveEdit_def setPlayers_def Let_def)
next
  case CancelEdit
  then show ?thesis using assms by (simp add: cancelEdit_def)
next
  case (RemovePlayer i)
  then show ?thesis by (simp add: removePlayer_def setPlayers_def)
qed

lemma players_dispatch: "players (dispatch u e s) = players (handler u e s)"
  by (simp add: dispatch_def players_effect_def)

text \<open>
  Claim C7. After every event that changes the stored collection, the sort
  configuration is the default, field rating and direction descending, whatever the
  user had selected: the effect on \<open>players\<close> runs whenever a handler has called the
  setter, which a successful add, every save and every remove do (they give
  \<open>players\<close> a new array even when its contents are the same).
\<close>

theorem sortConfig_reset_on_change:
  "(players (dispatch u e s) \<noteq> players s \<longrightarrow> sortConfig (dispatch u e s) = default_sortConfig)
   \<and> (players_ref (handler u e s) \<noteq> players_ref s
        \<longrightarrow> sortConfig (dispatch u e s) = default_sortConfig)
   \<and> (valid_record u (newPlayer s)
        \<longrightarrow> sortConfig (dispatch u (AddPlayer now) s) = default_sortConfig)
   \<and> sortConfig (dispatch u SaveEdit s) = default_sortConfig
   \<and> sortConfig (dispatch u (RemovePlayer i) s) = default_sortConfig"
proof -
  have ref: "sortConfig (dispatch u e s) = default_sortConfig"
    if "players_ref (handler u e s) \<noteq> players_ref s" for e
    using that by (simp add: dispatch_def players_effect_def)
  have chg: "sortConfig (dispatch u e s) = default_sortConfig"
    if "players (dispatch u e s) \<noteq> players s"
    using that ref players_changed_ref_changed [of u e s] by (simp add: players_dispatch)
  have add: "sortConfig (dispatch u (AddPlayer now) s) = default_sortConfig"
    if "valid_record u (newPlayer s)"
  proof -
    have "players_ref (snd (validatePlayer u (newPlayer s) s)) = players_ref s"
      by (subst validatePlayer_snd_frame) simp
    then have "players_ref (handler u (AddPlayer now) s) \<noteq> players_ref s"
      using that by (simp add: addPlayer_valid)
    then show ?thesis by (rule ref)
  qed
  have save: "sortConfig (dispatch u SaveEdit s) = default_sortConfig"
    by (rule ref) (simp add: saveEdit_def setPlayers_def Let_def)
  have rem: "sortConfig (dispatch u (RemovePlayer i) s) = default_sortConfig"
    by (rule ref) (simp add: removePlayer_def setPlayers_def)
  show ?thesis
    using ref chg add save rem by blast
qed

theorem sortConfig_reset_on_change_witness:
  "sortConfig (dispatch spec_utils (RequestSort Name) (initial [al, bo]))
     = \<lparr>field = Name, direction = asc\<rparr>
   \<and> players (dispatch spec_utils (RemovePlayer t0)
               (dispatch spec_utils (RequestSort Name) (initial [al, bo])))
     \<noteq> players (dispatch spec_utils (RequestSort Name) (initial [al, bo]))
   \<and> sortConfig (dispatch spec_utils (RemovePlayer t0)
               (dispatch spec_utils (RequestSort Name) (initial [al, bo])))
     = \<lparr>field = Rating, direction = desc\<rparr>"
proof -
  have a: "sortConfig (dispatch spec_utils (RequestSort Name) (initial [al, bo]))
     = \<lparr>field = Name, direction = asc\<rparr>"
    by code_simp
  have b: "players (dispatch spec_utils (RemovePlayer t0)
               (dispatch spec_utils (RequestSort Name) (initial [al, bo])))
     \<noteq> players (dispatch spec_utils (RequestSort Name) (initial [al, bo]))"
    by code_simp
  show ?thesis
    using a b sortConfig_reset_on_change [of spec_utils "RemovePlayer t0"
        "dispatch spec_utils (RequestSort Name) (initial [al, bo])" t0 t0]
    by (simp add: default_sortConfig_def)
qed

section \<open>Identities\<close>

lemma ids_saveEdit: "map id_player (players (saveEdit u s)) = map id_player (players s)"
  by (simp add: saveEdit_def setPlayers_def Let_def with_id_def)

lemma ids_removePlayer:
  "map id_player (players (removePlayer i s)) = filter (\<lambda>j. j \<noteq> i) (map id_player (players s))"
  by (simp add: removePlayer_def setPlayers_def filter_map comp_def)

lemma ids_addPlayer:
  "map id_player (players (addPlayer u now s))
   = map id_player (players s) @ (if valid_record u (newPlayer s) then [now] else [])"
  by (cases "valid_record u (newPlayer s)")
     (simp_all add: players_addPlayer_valid players_addPlayer_invalid with_id_def)

lemma distinct_ids_dispatch:
  assumes "distinct (map id_player (players s))"
    and "fresh_clock u [e] s"
  shows "distinct (map id_player (players (dispatch u e s)))"
proof (cases e)
  case (Edit d)
  then show ?thesis using assms(1) by (simp add: players_dispatch players_apply_edit)
next
  case (RequestSort f)
  then show ?thesis using assms(1) by (simp add: players_dispatch requestSort_def)
next
  case (AddPlayer now)
  then show ?thesis using assms by (simp add: players_dispatch ids_addPlayer)
next
  case (StartEditing p)
  then show ?thesis using assms(1) by (simp add: players_dispatch startEditing_def)
next
  case SaveEdit
  then show ?thesis using assms(1) by (simp add: players_dispatch ids_saveEdit)
next
  case CancelEdit
  then show ?thesis using assms(1) by (simp add: players_dispatch cancelEdit_def)
next
  case (RemovePlayer i)
  then show ?thesis using assms(1) by (simp add: players_dispatch ids_removePlayer)
qed

text \<open>
  Claim C6, as the code has it. The id of a new record is \<^verbatim>\<open>Date.now()\<close> and
  nothing compares it with the ids in the collection, so two adds within one
  millisecond give two records the same id.
\<close>

theorem same_timestamp_counterexample:
  "feasible spec_utils (type_al @ [AddPlayer t0] @ type_bo @ [AddPlayer t0]) (initial [])
   \<and> players (run spec_utils (type_al @ [AddPlayer t0] @ type_bo @ [AddPlayer t0]) (initial []))
       = [al, bo\<lparr>id_player := t0\<rparr>]
   \<and> al \<noteq> bo\<lparr>id_player := t0\<rparr>
   \<and> \<not> distinct (map id_player
          (players (run spec_utils (type_al @ [AddPlayer t0] @ type_bo @ [AddPlayer t0])
             (initial []))))"
  by code_simp

text \<open>
  Claim C6, amended. From a collection whose ids are distinct, along every run of
  events in which each successful add reads a clock value that is the id of no record
  then in the collection, the ids of the records in the collection stay distinct:
  saving keeps every id, removing drops records, and no other handler writes the
  collection.
\<close>

theorem ids_distinct_fresh_clock:
  assumes "distinct (map id_player (players s))"
    and "fresh_clock u es s"
  shows "distinct (map id_player (players (run u es s)))"
  using assms
proof (induction es arbitrary: s)
  case Nil
  then show ?case by simp
next
  case (Cons e es)
  have "fresh_clock u [e] s" using Cons.prems(2) by simp
  then have "distinct (map id_player (players (dispatch u e s)))"
    using Cons.prems(1) by (intro distinct_ids_dispatch)
  moreover have "fresh_clock u es (dispatch u e s)" using Cons.prems(2) by simp
  ultimately show ?case using Cons.IH by simp
qed

theorem ids_distinct_fresh_clock_witness:
  "distinct (map id_player (players (initial [])))
   \<and> fresh_clock spec_utils (type_al @ [AddPlayer t0] @ type_bo @ [AddPlayer (t0 + 1)]) (initial [])
   \<and> players (run spec_utils (type_al @ [AddPlayer t0] @ type_bo @ [AddPlayer (t0 + 1)]) (initial []))
       = [al, bo]
   \<and> distinct (map id_player
        (players (run spec_utils (type_al @ [AddPlayer t0] @ type_bo @ [AddPlayer (t0 + 1)])
           (initial []))))"
proof -
  have a: "distinct (map id_player (players (initial [])))"
    by code_simp
  have b: "fresh_clock spec_utils (type_al @ [AddPlayer t0] @ type_bo @ [AddPlayer (t0 + 1)]) (initial [])"
    by code_simp
  have c: "players (run spec_utils (type_al @ [AddPlayer t0] @ type_bo @ [AddPlayer (t0 + 1)]) (initial []))
       = [al, bo]"
    by code_simp
  show ?thesis
    using ids_distinct_fresh_clock [OF a b] a b c by simp
qed

section \<open>Saving an edit\<close>

lemma store_valid_other_handlers:
  assumes "store_valid u s"
    and "\<forall>n. validateName u n \<longrightarrow> validateName u (capitalizeName u n)"
    and "e \<noteq> SaveEdit"
  shows "store_valid u (dispatch u e s)"
proof (cases e)
  case (Edit d)
  then show ?thesis using assms(1) by (simp add: store_valid_def players_dispatch players_apply_edit)
next
  case (RequestSort f)
  then show ?thesis using assms(1) by (simp add: store_valid_def players_dispatch requestSort_def)
next
  case (AddPlayer now)
  show ?thesis
  proof (cases "valid_record u (newPlayer s)")
    case True
    then have "valid_record u (with_id (newPlayer s) now (capitalizeName u (name (newPlayer s))))"
      using assms(2) by (simp add: valid_record_def with_id_def)
    then show ?thesis
      using assms(1) True AddPlayer
      by (simp add: store_valid_def players_dispatch players_addPlayer_valid)
  next
    case False
    then show ?thesis
      using assms(1) AddPlayer by (simp add: store_valid_def players_dispatch players_addPlayer_invalid)
  qed
next
  case (StartEditing p)
  then show ?thesis using assms(1) by (simp add: store_valid_def players_dispatch startEditing_def)
next
  case SaveEdit
  then show ?thesis using assms(3) by simp
next
  case CancelEdit
  then show ?thesis using assms(1) by (simp add: store_valid_def players_dispatch cancelEdit_def)
next
  case (RemovePlayer i)
  then show ?thesis
    using assms(1) by (simp add: store_valid_def players_dispatch removePlayer_def setPlayers_def list_all_iff)
qed

text \<open>
  What \<^verbatim>\<open>saveEdit\<close> does in every state: the record whose id is \<open>editingId\<close>
  is replaced by the draft with that id and the capitalized name, the edit marker and
  the draft are cleared, and the error object is not written.
\<close>

lemma saveEdit_unconditional:
  "players (saveEdit u s)
     = map (\<lambda>p. if Some (id_player p) = editingId s
                then with_id (newPlayer s) (id_player p) (capitalizeName u (name (newPlayer s)))
                else p) (players s)
   \<and> editingId (saveEdit u s) = None
   \<and> newPlayer (saveEdit u s) = empty_new_player
   \<and> errors (saveEdit u s) = errors s
   \<and> toasts (saveEdit u s) = toasts s"
  by (simp add: saveEdit_def setPlayers_def Let_def)

text \<open>
  Claim C1, evaluated where it fails. \<^verbatim>\<open>saveEdit\<close> never calls
  \<^verbatim>\<open>validatePlayer\<close>: with the record \<open>al\<close> under edit and the rating of the
  draft changed to \<^verbatim>\<open>abc\<close>, which \<^verbatim>\<open>validateRating\<close> rejects, it writes the
  draft into the collection, leaves the edit session and reports no error.
\<close>

theorem saveEdit_stores_invalid_draft:
  "offered SaveEdit (apply_edit (SetRating ''abc'') (startEditing al (initial [al, bo])))
   \<and> \<not> valid_record spec_utils
         (newPlayer (apply_edit (SetRating ''abc'') (startEditing al (initial [al, bo]))))
   \<and> players (saveEdit spec_utils
        (apply_edit (SetRating ''abc'') (startEditing al (initial [al, bo]))))
       = [al\<lparr>rating := ''abc''\<rparr>, bo]
   \<and> editingId (saveEdit spec_utils
        (apply_edit (SetRating ''abc'') (startEditing al (initial [al, bo])))) = None
   \<and> errors (saveEdit spec_utils
        (apply_edit (SetRating ''abc'') (startEditing al (initial [al, bo])))) = []"
  by code_simp

text \<open>
  Claim C2, evaluated where it fails. From the empty collection, the events the page
  offers (type a valid record, add it, edit it, type the rating \<^verbatim>\<open>abc\<close>, save)
  lead to a collection that holds a record \<^verbatim>\<open>validateRating\<close> rejects.
\<close>

theorem invalid_record_reachable:
  "store_valid spec_utils (initial [])
   \<and> feasible spec_utils
       (type_al @ [AddPlayer t0, StartEditing al, Edit (SetRating ''abc''), SaveEdit]) (initial [])
   \<and> players (run spec_utils
       (type_al @ [AddPlayer t0, StartEditing al, Edit (SetRating ''abc''), SaveEdit]) (initial []))
       = [al\<lparr>rating := ''abc''\<rparr>]
   \<and> \<not> validateRating spec_utils ''abc''
   \<and> \<not> store_valid spec_utils (run spec_utils
       (type_al @ [AddPlayer t0, StartEditing al, Edit (SetRating ''abc''), SaveEdit]) (initial []))"
  by code_simp

section \<open>The sorted view\<close>

lemma mset_insert_sorted: "mset (insert_sorted c x xs) = add_mset x (mset xs)"
  by (induction xs) simp_all

lemma mset_array_sort: "mset (array_sort c xs) = mset xs"
  by (induction xs) (simp_all add: mset_insert_sorted)

lemma set_insert_sorted: "set (insert_sorted c x xs) = insert x (set xs)"
  using mset_insert_sorted [of c x xs, THEN arg_cong, of set_mset] by simp

lemma set_array_sort: "set (array_sort c xs) = set xs"
  using mset_array_sort [of c xs, THEN arg_cong, of set_mset] by simp

lemma sorted_insert_sorted:
  fixes k :: "'a \<Rightarrow> int"
  assumes "\<forall>y \<in> set xs. (SortCompare c x y \<le> 0) = (k x \<le> k y)"
    and "sorted (map k xs)"
  shows "sorted (map k (insert_sorted c x xs))"
  using assms
proof (induction xs)
  case Nil
  then show ?case by simp
next
  case (Cons y ys)
  show ?case
  proof (cases "SortCompare c x y \<le> 0")
    case True
    then have "k x \<le> k y" using Cons.prems(1) by simp
    then show ?thesis using True Cons.prems(2) by auto
  next
    case False
    then have "k y \<le> k x" using Cons.prems(1) by simp
    moreover have "sorted (map k (insert_sorted c x ys))"
      using Cons.IH Cons.prems by simp
    ultimately show ?thesis
      using False Cons.prems(2) by (auto simp add: set_insert_sorted)
  qed
qed

lemma sorted_array_sort:
  fixes k :: "'a \<Rightarrow> int"
  assumes "\<forall>x \<in> set xs. \<forall>y \<in> set xs. (SortCompare c x y \<le> 0) = (k x \<le> k y)"
  shows "sorted (map k (array_sort c xs))"
  using assms
proof (induction xs)
  case Nil
  then show ?case by simp
next
  case (Cons x xs)
  have "sorted (map k (array_sort c xs))"
    using Cons by simp
  moreover have "\<forall>y \<in> set (array_sort c xs). (SortCompare c x y \<le> 0) = (k x \<le> k y)"
    using Cons.prems by (simp add: set_array_sort)
  ultimately show ?case
    by (simp add: sorted_insert_sorted)
qed

lemma yearOrder_years: "i < length years \<Longrightarrow> yearOrder (years ! i) = Some (int i)"
  by (simp add: years_def yearOrder_def less_Suc_eq numeral_eq_Suc, elim disjE; simp)

lemma year_label_rank:
  assumes "y \<in> set years"
  shows "\<exists>i < length years. years ! i = y \<and> yearOrder y = Some (int i)"
proof -
  from assms obtain i where "i < length years" "years ! i = y"
    by (auto simp add: in_set_conv_nth)
  then show ?thesis using yearOrder_years [of i] by auto
qed

lemma comparefn_year_asc:
  assumes "yearOrder (year a) = Some i" "yearOrder (year b) = Some j"
  shows "comparefn \<lparr>field = Year, direction = asc\<rparr> a b = Some (i - j)"
  using assms by (simp add: comparefn_def js_sub_def)

lemma years_via_rank:
  assumes "y \<in> set years"
  shows "years ! nat (number_key (yearOrder y)) = y"
proof -
  from year_label_rank [OF assms] obtain i where "i < length years" "years ! i = y"
    "yearOrder y = Some (int i)" by blast
  then show ?thesis by (simp add: number_key_def)
qed

lemma rank_of_years: "map (\<lambda>y. number_key (yearOrder y)) years = [0, 1, 2, 3, 4, 5, 6, 7]"
  by (simp add: years_def yearOrder_def number_key_def)

lemma year_compare_sorts:
  assumes "year a \<in> set years" "year b \<in> set years"
  shows "(SortCompare (comparefn \<lparr>field = Year, direction = asc\<rparr>) a b \<le> 0)
         = (number_key (yearOrder (year a)) \<le> number_key (yearOrder (year b)))"
proof -
  from year_label_rank [OF assms(1)] obtain i where i: "yearOrder (year a) = Some (int i)" by blast
  from year_label_rank [OF assms(2)] obtain j where j: "yearOrder (year b) = Some (int j)" by blast
  show ?thesis
    by (simp add: SortCompare_def comparefn_year_asc [OF i j] i j number_key_def)
qed

text \<open>
  Claim C4. With the sort configuration on year, ascending, and every record carrying
  one of the eight labels, the sorted view is a permutation of the collection whose
  ranks in \<^verbatim>\<open>yearOrder\<close> increase; when the collection holds one record of each
  label, the labels of the view are exactly FR, FR (RS), SO, SO (RS), JR, JR (RS), SR,
  SR (RS), whatever the order of the collection. The comparator answers the difference
  of the positions of the two labels in that sequence, so two records with different
  labels are never compared by their strings.
\<close>

theorem year_sort_by_rank:
  assumes cfg: "sortConfig s = \<lparr>field = Year, direction = asc\<rparr>"
    and labels: "\<forall>p \<in> set (players s). year p \<in> set years"
  shows "mset (sortedPlayers s) = mset (players s)
    \<and> (\<exists>ranks. map (\<lambda>p. yearOrder (year p)) (sortedPlayers s) = map Some ranks \<and> sorted ranks)
    \<and> (mset (map year (players s)) = mset years \<longrightarrow> map year (sortedPlayers s) = years)
    \<and> (\<forall>a \<in> set (players s). \<forall>b \<in> set (players s).
          \<exists>i < length years. \<exists>j < length years.
            years ! i = year a \<and> years ! j = year b
            \<and> comparefn (sortConfig s) a b = Some (int i - int j))"
proof -
  let ?k = "\<lambda>p. number_key (yearOrder (year p))"
  let ?ys = "sortedPlayers s"
  have perm: "mset ?ys = mset (players s)"
    by (simp add: sortedPlayers_def mset_array_sort)
  have set_ys: "set ?ys = set (players s)"
    by (simp add: sortedPlayers_def set_array_sort)
  have sorted_k: "sorted (map ?k ?ys)"
    unfolding sortedPlayers_def cfg
    by (rule sorted_array_sort) (use labels in \<open>simp add: year_compare_sorts\<close>)
  have some_k: "yearOrder (year p) = Some (?k p)" if "p \<in> set ?ys" for p
  proof -
    from that set_ys labels have "year p \<in> set years" by simp
    from year_label_rank [OF this] show ?thesis by (auto simp add: number_key_def)
  qed
  have ranks: "\<exists>ranks. map (\<lambda>p. yearOrder (year p)) ?ys = map Some ranks \<and> sorted ranks"
  proof (intro exI conjI)
    show "map (\<lambda>p. yearOrder (year p)) ?ys = map Some (map ?k ?ys)"
      using some_k by simp
    show "sorted (map ?k ?ys)" by (rule sorted_k)
  qed
  have exact: "map year ?ys = years" if all: "mset (map year (players s)) = mset years"
  proof -
    have "mset (map year ?ys) = mset years"
      using all perm by (metis mset_map)
    then have "mset (map (\<lambda>y. number_key (yearOrder y)) (map year ?ys))
               = mset (map (\<lambda>y. number_key (yearOrder y)) years)"
      by (metis mset_map)
    then have "mset (map ?k ?ys) = mset [0, 1, 2, 3, 4, 5, 6, 7 :: int]"
      by (simp add: rank_of_years comp_def)
    then have "sort [0, 1, 2, 3, 4, 5, 6, 7 :: int] = map ?k ?ys"
      using sorted_k by (intro properties_for_sort) simp_all
    then have ks: "map ?k ?ys = [0, 1, 2, 3, 4, 5, 6, 7]"
      by (simp add: sorted_sort_id)
    have "map year ?ys = map (\<lambda>p. years ! nat (?k p)) ?ys"
      using set_ys labels by (intro map_cong) (simp_all add: years_via_rank)
    also have "\<dots> = map (\<lambda>r. years ! nat r) (map ?k ?ys)"
      by (simp add: comp_def)
    also have "\<dots> = years"
      by (simp only: ks) (simp add: years_def)
    finally show ?thesis .
  qed
  have cmp: "\<exists>i < length years. \<exists>j < length years.
            years ! i = year a \<and> years ! j = year b
            \<and> comparefn (sortConfig s) a b = Some (int i - int j)"
    if "a \<in> set (players s)" "b \<in> set (players s)" for a b
  proof -
    from that labels have "year a \<in> set years" "year b \<in> set years" by simp_all
    then obtain i j where "i < length years" "years ! i = year a" "yearOrder (year a) = Some (int i)"
      "j < length years" "years ! j = year b" "yearOrder (year b) = Some (int j)"
      using year_label_rank by blast
    then show ?thesis
      using comparefn_year_asc [of a "int i" b "int j"] cfg by auto
  qed
  show ?thesis
    using perm ranks exact cmp by blast
qed

theorem year_sort_by_rank_witness:
  "sortConfig (requestSort Year (initial shuffled)) = \<lparr>field = Year, direction = asc\<rparr>
   \<and> list_all (\<lambda>p. year p \<in> set years) (players (requestSort Year (initial shuffled)))
   \<and> mset (map year (players (requestSort Year (initial shuffled)))) = mset years
   \<and> map year (sortedPlayers (requestSort Year (initial shuffled))) = years
   \<and> ''JR'' < ''SO''
   \<and> comparefn (sortConfig (requestSort Year (initial shuffled)))
        (with_year ''SO'' 4) (with_year ''JR'' 3) = Some (- 2)"
proof -
  have a: "sortConfig (requestSort Year (initial shuffled)) = \<lparr>field = Year, direction = asc\<rparr>"
    by code_simp
  have b: "\<forall>p \<in> set (players (requestSort Year (initial shuffled))). year p \<in> set years"
    by code_simp
  have c: "mset (map year (players (requestSort Year (initial shuffled)))) = mset years"
    by code_simp
  have d: "''JR'' < ''SO''"
    by code_simp
  have e: "comparefn (sortConfig (requestSort Year (initial shuffled)))
        (with_year ''SO'' 4) (with_year ''JR'' 3) = Some (- 2)"
    by code_simp
  show ?thesis
    using year_sort_by_rank [OF a b] a b c d e by (simp add: list_all_iff)
qed








text \<open>
  With a rating that does not parse, the comparator answers \<^verbatim>\<open>NaN\<close> against
  every record, so the relation the sort sees is not transitive. In the insertion sort
  of this model, parseable ratings on either side of such a record stay out of numeric
  order.
\<close>

lemma unparsable_rating_between:
  "map rating (array_sort (comparefn \<lparr>field = Rating, direction = asc\<rparr>)
     [with_rating ''9'' 1, with_rating ''x'' 2, with_rating ''7'' 3]) = [''9'', ''x'', ''7'']"
  by code_simp



end
